theory Spec2Isabelle
  imports Main
begin

section \<open>choir2anki: lyric alignment and note shards\<close>

text \<open>
  A shallow embedding of the text-processing functions of \<^verbatim>\<open>choir2anki.py\<close>:
  \<^verbatim>\<open>create_normal_lyrics\<close>, \<^verbatim>\<open>create_lyric_slice\<close>, \<^verbatim>\<open>count_singable_notes\<close> and the
  combining loop of \<^verbatim>\<open>create_normal_note_shards\<close>.

  A Python \<^verbatim>\<open>str\<close> is modelled as a \<^typ>\<open>string\<close>, each \<^typ>\<open>char\<close> standing for a code
  point below 256; Python integers are \<^typ>\<open>int\<close>; the result of \<^verbatim>\<open>len\<close> is a \<^typ>\<open>nat\<close>.
\<close>

subsection \<open>Strings\<close>

text \<open>\<^verbatim>\<open>str.isspace\<close> on the code points below 256.\<close>

definition isspace :: "char \<Rightarrow> bool" where
  "isspace c = (c \<in> set [CHR 0x09, CHR 0x0A, CHR 0x0B, CHR 0x0C, CHR 0x0D,
                           CHR 0x1C, CHR 0x1D, CHR 0x1E, CHR 0x1F, CHR '' '',
                           CHR 0x85, CHR 0xA0])"

text \<open>
  \<^verbatim>\<open>s.split()\<close> without a separator: the maximal runs of non-whitespace characters, in
  order. \<open>cur\<close> is the token read so far.
\<close>

fun split_from :: "string \<Rightarrow> string \<Rightarrow> string list" where
  "split_from cur [] = (if cur = [] then [] else [cur])"
| "split_from cur (c # cs) =
     (if isspace c then (if cur = [] then split_from [] cs else cur # split_from [] cs)
      else split_from (cur @ [c]) cs)"

definition str_split :: "string \<Rightarrow> string list" where
  "str_split s = split_from [] s"

text \<open>\<^verbatim>\<open>sep.join(words)\<close>.\<close>

fun str_join :: "string \<Rightarrow> string list \<Rightarrow> string" where
  "str_join sep [] = []"
| "str_join sep [w] = w"
| "str_join sep (w # v # ws) = w @ sep @ str_join sep (v # ws)"

text \<open>\<^verbatim>\<open>t.endswith(c)\<close> for a one-character suffix, and \<^verbatim>\<open>x.startswith(p)\<close>.\<close>

definition endswith :: "string \<Rightarrow> char \<Rightarrow> bool" where
  "endswith t c = (t \<noteq> [] \<and> last t = c)"

definition startswith :: "string \<Rightarrow> string \<Rightarrow> bool" where
  "startswith x p = (take (length p) x = p)"

text \<open>\<^verbatim>\<open>re.match('^[a-g]', t)\<close>: the first character is one of the letters a to g.\<close>

definition match_pitch :: "string \<Rightarrow> bool" where
  "match_pitch t = (case t of [] \<Rightarrow> False | c # _ \<Rightarrow> c \<in> set ''abcdefg'')"

subsection \<open>\<^verbatim>\<open>create_normal_lyrics\<close>\<close>

datatype py_error = IndexError

text \<open>
  The loop over the tokens, with the locals \<open>words\<close> and \<open>join_next\<close>.
  \<^verbatim>\<open>words[-1] += t\<close> raises \<^verbatim>\<open>IndexError\<close> on the empty list.
\<close>

fun normal_lyrics_loop :: "string list \<Rightarrow> bool \<Rightarrow> string list \<Rightarrow> py_error + string list" where
  "normal_lyrics_loop words join_next [] = Inr words"
| "normal_lyrics_loop words join_next (t # ts) =
     (if t = ''__'' then normal_lyrics_loop words join_next ts
      else if t = ''--'' then normal_lyrics_loop words True ts
      else if join_next then
        (if words = [] then Inl IndexError
         else normal_lyrics_loop (butlast words @ [last words @ t]) False ts)
      else normal_lyrics_loop (words @ [t]) False ts)"

definition create_normal_lyrics :: "string \<Rightarrow> py_error + string" where
  "create_normal_lyrics lilypond_lyrics =
     (case normal_lyrics_loop [] False (str_split lilypond_lyrics) of
        Inl e \<Rightarrow> Inl e
      | Inr words \<Rightarrow> Inr (str_join '' '' words))"

subsection \<open>\<^verbatim>\<open>create_lyric_slice\<close>\<close>

text \<open>The loop over the tokens, with the locals \<open>lyric_slice\<close> and \<open>syllable_counter\<close>.\<close>

fun lyric_slice_loop :: "int \<Rightarrow> int \<Rightarrow> string list \<Rightarrow> int \<Rightarrow> string list \<Rightarrow> string list" where
  "lyric_slice_loop slice_start slice_end lyric_slice syllable_counter [] = lyric_slice"
| "lyric_slice_loop slice_start slice_end lyric_slice syllable_counter (t # ts) =
     lyric_slice_loop slice_start slice_end
       (if slice_start \<le> syllable_counter \<and> syllable_counter < slice_end
        then lyric_slice @ [t] else lyric_slice)
       (if t \<noteq> ''--'' then syllable_counter + 1 else syllable_counter)
       ts"

definition create_lyric_slice :: "string \<Rightarrow> int \<Rightarrow> int \<Rightarrow> string" where
  "create_lyric_slice lilypond_lyrics slice_start slice_end =
     str_join '' '' (lyric_slice_loop slice_start slice_end [] 0 (str_split lilypond_lyrics))"

text \<open>
  The value of \<open>syllable_counter\<close> at each token, and its value after the last one.
\<close>

fun syllable_positions :: "int \<Rightarrow> string list \<Rightarrow> int list" where
  "syllable_positions syllable_counter [] = []"
| "syllable_positions syllable_counter (t # ts) =
     syllable_counter #
     syllable_positions (if t \<noteq> ''--'' then syllable_counter + 1 else syllable_counter) ts"

definition syllable_count :: "string list \<Rightarrow> int" where
  "syllable_count ts = int (length (filter (\<lambda>t. t \<noteq> ''--'') ts))"

text \<open>
  The call in \<^verbatim>\<open>main\<close>:
  \<^verbatim>\<open>create_lyric_slice(lyrics, num_seen_singable_notes,
      num_seen_singable_notes + num_lyric_relevant_notes + 1)\<close>.
\<close>

definition answr_lyrics :: "string \<Rightarrow> int \<Rightarrow> int \<Rightarrow> string" where
  "answr_lyrics lyrics num_seen_singable_notes num_lyric_relevant_notes =
     create_lyric_slice lyrics num_seen_singable_notes
       (num_seen_singable_notes + num_lyric_relevant_notes + 1)"

subsection \<open>\<^verbatim>\<open>count_singable_notes\<close>\<close>

record counter =
  singable_notes :: int
  open_parantheses :: int
  next_is_tie :: bool

text \<open>
  One pass of the loop body. The closing parenthesis is handled first; a pending tie then
  ends the pass (\<^verbatim>\<open>continue\<close>), before the tie, pitch and opening-parenthesis tests.
\<close>

definition close_parantheses :: "counter \<Rightarrow> string \<Rightarrow> counter" where
  "close_parantheses s t =
     (if endswith t (CHR '')'') then
        (if open_parantheses s - 1 = 0
         then s\<lparr>open_parantheses := open_parantheses s - 1, singable_notes := singable_notes s + 1\<rparr>
         else s\<lparr>open_parantheses := open_parantheses s - 1\<rparr>)
      else s)"

definition count_step :: "counter \<Rightarrow> string \<Rightarrow> counter" where
  "count_step s t =
     (let s1 = close_parantheses s t in
      if next_is_tie s1 then s1\<lparr>next_is_tie := endswith t (CHR ''~'')\<rparr>
      else
        let s2 = (if endswith t (CHR ''~'') then s1\<lparr>next_is_tie := True\<rparr> else s1);
            s3 = (if open_parantheses s2 = 0 \<and> match_pitch t
                  then s2\<lparr>singable_notes := singable_notes s2 + 1\<rparr> else s2)
        in if endswith t (CHR ''('') then s3\<lparr>open_parantheses := open_parantheses s3 + 1\<rparr>
           else s3)"

definition count_loop :: "counter \<Rightarrow> string list \<Rightarrow> counter" where
  "count_loop s tokens = foldl count_step s tokens"

text \<open>The function returns \<open>singable_notes\<close> only.\<close>

definition count_singable_notes :: "string \<Rightarrow> int \<Rightarrow> int" where
  "count_singable_notes lilypond_notes open_parantheses0 =
     singable_notes
       (count_loop \<lparr>singable_notes = 0, open_parantheses = open_parantheses0, next_is_tie = False\<rparr>
          (str_split lilypond_notes))"

subsection \<open>\<^verbatim>\<open>create_normal_note_shards\<close>\<close>

text \<open>
  The model starts where the two results of the abjad parser are at hand:
  \<open>normalized_notes\<close>, the stripped lines of the normalized notation without the braces,
  and \<open>shard_lengths\<close>, the number of notes and rests of each annotated segment.
\<close>

definition num_comments :: "string list \<Rightarrow> nat" where
  "num_comments shard = length (filter (\<lambda>x. startswith x ''%%%'') shard)"

text \<open>
  The \<^verbatim>\<open>while\<close> loop on (\<open>shard\<close>, \<open>normalized_notes\<close>, \<open>num_comments_found\<close>,
  \<open>num_comments_compensated\<close>). It need not terminate: \<open>None\<close> is "does not return".
\<close>

partial_function (option) compensate_comments ::
    "string list \<times> string list \<times> nat \<times> nat \<Rightarrow> (string list \<times> string list) option" where
  "compensate_comments st =
     (case st of (shard, normalized_notes, num_comments_found, num_comments_compensated) \<Rightarrow>
        if num_comments_found \<noteq> num_comments_compensated then
          compensate_comments
            (shard @ take num_comments_found normalized_notes,
             drop num_comments_found normalized_notes,
             num_comments (shard @ take num_comments_found normalized_notes),
             num_comments_compensated + length (take num_comments_found normalized_notes))
        else Some (shard, normalized_notes))"

declare compensate_comments.simps [code]

text \<open>The \<^verbatim>\<open>for\<close> loop over \<open>shard_lengths\<close>, accumulating \<open>note_shards\<close>.\<close>

fun note_shards_loop :: "string list \<Rightarrow> string list \<Rightarrow> nat list \<Rightarrow> string list option" where
  "note_shards_loop note_shards normalized_notes [] = Some note_shards"
| "note_shards_loop note_shards normalized_notes (l # ls) =
     (case compensate_comments
             (take l normalized_notes, drop l normalized_notes,
              num_comments (take l normalized_notes), 0) of
        None \<Rightarrow> None
      | Some (shard, normalized_notes') \<Rightarrow>
          note_shards_loop (note_shards @ [str_join '' '' shard]) normalized_notes' ls)"

definition create_normal_note_shards :: "string list \<Rightarrow> nat list \<Rightarrow> string list option" where
  "create_normal_note_shards normalized_notes shard_lengths =
     note_shards_loop [] normalized_notes shard_lengths"

text \<open>
  The same loop keeping each shard as its list of lines, before they are joined.
\<close>

fun shard_lines_loop ::
    "string list list \<Rightarrow> string list \<Rightarrow> nat list \<Rightarrow> string list list option" where
  "shard_lines_loop shards normalized_notes [] = Some shards"
| "shard_lines_loop shards normalized_notes (l # ls) =
     (case compensate_comments
             (take l normalized_notes, drop l normalized_notes,
              num_comments (take l normalized_notes), 0) of
        None \<Rightarrow> None
      | Some (shard, normalized_notes') \<Rightarrow>
          shard_lines_loop (shards @ [shard]) normalized_notes' ls)"

section \<open>Lyric slicing\<close>

text \<open>
  The loop keeps exactly the tokens whose counter value lies in the half-open interval
  from \<open>slice_start\<close> to \<open>slice_end\<close>.
\<close>

lemma lyric_slice_loop_positions:
  "lyric_slice_loop a b acc c ts =
     acc @ map fst (filter (\<lambda>(t, p). a \<le> p \<and> p < b) (zip ts (syllable_positions c ts)))"
  by (induction ts arbitrary: acc c) simp_all

text \<open>Without join markers the counter is the index of the token.\<close>

lemma lyric_slice_loop_plain:
  "''--'' \<notin> set ts \<Longrightarrow>
   lyric_slice_loop a b acc c ts =
     acc @ take (nat (b - c) - nat (a - c)) (drop (nat (a - c)) ts)"
proof (induction ts arbitrary: acc c)
  case Nil
  then show ?case by simp
next
  case (Cons t ts)
  then have t: "t \<noteq> ''--''" and ts: "''--'' \<notin> set ts" by auto
  have step: "lyric_slice_loop a b acc c (t # ts) =
      lyric_slice_loop a b (if a \<le> c \<and> c < b then acc @ [t] else acc) (c + 1) ts"
    using t by simp
  have ih: "lyric_slice_loop a b acc' (c + 1) ts =
      acc' @ take (nat (b - (c + 1)) - nat (a - (c + 1))) (drop (nat (a - (c + 1))) ts)" for acc'
    using Cons.IH [OF ts] by blast
  show ?case
  proof (cases "a \<le> c")
    case True
    then have a0: "nat (a - c) = 0" "nat (a - (c + 1)) = 0" by simp_all
    show ?thesis
    proof (cases "c < b")
      case True
      then have "nat (b - c) = Suc (nat (b - (c + 1)))" by simp
      with \<open>a \<le> c\<close> True a0 step ih show ?thesis by simp
    next
      case False
      then have "nat (b - c) = 0" "nat (b - (c + 1)) = 0" by simp_all
      with \<open>a \<le> c\<close> False a0 step ih show ?thesis by simp
    qed
  next
    case False
    then have a1: "nat (a - c) = Suc (nat (a - (c + 1)))" by simp
    have "nat (b - c) - nat (a - c) = nat (b - (c + 1)) - nat (a - (c + 1))"
      using False by (cases "c < b") (simp_all add: nat_diff_distrib)
    with False a1 step ih show ?thesis by simp
  qed
qed

text \<open>No counter value exceeds the number of tokens that are not join markers.\<close>

lemma syllable_positions_le:
  "p \<in> set (syllable_positions c ts) \<Longrightarrow> p \<le> c + syllable_count ts"
proof (induction ts arbitrary: c)
  case Nil
  then show ?case by simp
next
  case (Cons t ts)
  show ?case
  proof (cases "p = c")
    case True
    then show ?thesis by (simp add: syllable_count_def)
  next
    case False
    with Cons.prems
    have "p \<in> set (syllable_positions (if t \<noteq> ''--'' then c + 1 else c) ts)" by simp
    from Cons.IH [OF this] show ?thesis
      by (simp add: syllable_count_def split: if_splits)
  qed
qed

lemma lyric_slice_loop_underflow:
  "c + syllable_count ts < b \<Longrightarrow>
   lyric_slice_loop a b acc c ts =
     acc @ map fst (filter (\<lambda>(t, p). a \<le> p) (zip ts (syllable_positions c ts)))"
proof -
  assume b: "c + syllable_count ts < b"
  have "filter (\<lambda>(t, p). a \<le> p \<and> p < b) (zip ts (syllable_positions c ts)) =
        filter (\<lambda>(t, p). a \<le> p) (zip ts (syllable_positions c ts))"
  proof (rule filter_cong [OF refl])
    fix x assume "x \<in> set (zip ts (syllable_positions c ts))"
    then have "snd x \<in> set (syllable_positions c ts)"
      by (metis prod.collapse set_zip_rightD)
    then have "snd x < b" using syllable_positions_le b by fastforce
    then show "(case x of (t, p) \<Rightarrow> a \<le> p \<and> p < b) = (case x of (t, p) \<Rightarrow> a \<le> p)"
      by (cases x) simp
  qed
  then show ?thesis by (simp add: lyric_slice_loop_positions)
qed

text \<open>
  Claim C1, as amended. \<^verbatim>\<open>create_lyric_slice\<close> returns the tokens whose syllable position
  \<open>p\<close> satisfies \<open>slice_start \<le> p < slice_end\<close>: the window is half-open and holds
  \<open>slice_end - slice_start\<close> positions, with no extra position at the top. On a lyric
  line without join markers and for \<open>0 \<le> slice_start \<le> slice_end\<close> the result is
  \<open>slice_end - slice_start\<close> tokens from index \<open>slice_start\<close> on (fewer when the line
  ends before). The extra position is added by the caller: \<^verbatim>\<open>main\<close> passes
  \<open>seen + n + 1\<close> as \<open>slice_end\<close>, which gives \<open>n + 1\<close> tokens.
\<close>

theorem lyric_slice_window:
  "create_lyric_slice lyrics a b =
     str_join '' '' (map fst (filter (\<lambda>(t, p). a \<le> p \<and> p < b)
        (zip (str_split lyrics) (syllable_positions 0 (str_split lyrics)))))
   \<and> (''--'' \<notin> set (str_split lyrics) \<and> 0 \<le> a \<and> a \<le> b \<longrightarrow>
        create_lyric_slice lyrics a b =
          str_join '' '' (take (nat (b - a)) (drop (nat a) (str_split lyrics))))
   \<and> (''--'' \<notin> set (str_split lyrics) \<and> 0 \<le> a \<and> 0 \<le> n \<longrightarrow>
        answr_lyrics lyrics a n =
          str_join '' '' (take (nat n + 1) (drop (nat a) (str_split lyrics))))"
proof (intro conjI impI)
  show "create_lyric_slice lyrics a b =
     str_join '' '' (map fst (filter (\<lambda>(t, p). a \<le> p \<and> p < b)
        (zip (str_split lyrics) (syllable_positions 0 (str_split lyrics)))))"
    by (simp add: create_lyric_slice_def lyric_slice_loop_positions)
next
  assume h: "''--'' \<notin> set (str_split lyrics) \<and> 0 \<le> a \<and> a \<le> b"
  then have "nat b - nat a = nat (b - a)" by (simp add: nat_diff_distrib)
  with h show "create_lyric_slice lyrics a b =
          str_join '' '' (take (nat (b - a)) (drop (nat a) (str_split lyrics)))"
    by (simp add: create_lyric_slice_def lyric_slice_loop_plain)
next
  assume h: "''--'' \<notin> set (str_split lyrics) \<and> 0 \<le> a \<and> 0 \<le> n"
  then have "nat (a + n + 1) - nat a = nat n + 1" by (simp add: nat_diff_distrib nat_add_distrib)
  with h show "answr_lyrics lyrics a n =
          str_join '' '' (take (nat n + 1) (drop (nat a) (str_split lyrics)))"
    by (simp add: answr_lyrics_def create_lyric_slice_def lyric_slice_loop_plain)
qed

text \<open>
  On \<^verbatim>\<open>"one two three four"\<close>, the slice from 1 to 3 is \<^verbatim>\<open>"two three"\<close>; the call of
  \<^verbatim>\<open>main\<close> for two notes after one seen note gives \<^verbatim>\<open>"two three four"\<close>.
\<close>

theorem lyric_slice_window_witness:
  "''--'' \<notin> set (str_split ''one two three four'') \<and> (0::int) \<le> 1 \<and> (1::int) \<le> 3
   \<and> (0::int) \<le> 2
   \<and> create_lyric_slice ''one two three four'' 1 3 = ''two three''
   \<and> answr_lyrics ''one two three four'' 1 2 = ''two three four''"
  using lyric_slice_window [of "''one two three four''" 1 3 2]
  by (simp add: str_split_def isspace_def)

text \<open>
  Claim C1 as stated fails: the slice from 1 to 3 of \<^verbatim>\<open>"one two three four"\<close> holds the
  positions 1 and 2 only.
\<close>

theorem lyric_slice_counterexample:
  "create_lyric_slice ''one two three four'' 1 3 = ''two three''
   \<and> create_lyric_slice ''one two three four'' 1 3 \<noteq> ''two three four''"
  by (simp add: create_lyric_slice_def str_split_def isspace_def)

text \<open>
  Claim C8, as amended. When \<open>slice_end\<close> exceeds the number of syllables of the line,
  \<^verbatim>\<open>create_lyric_slice\<close> returns every token from position \<open>slice_start\<close> to the
  end of the line (on a line without join markers: the tokens from index \<open>slice_start\<close>
  on). It returns this string and nothing else.
\<close>

theorem lyric_slice_underflow:
  "syllable_count (str_split lyrics) < b \<Longrightarrow>
     create_lyric_slice lyrics a b =
       str_join '' '' (map fst (filter (\<lambda>(t, p). a \<le> p)
          (zip (str_split lyrics) (syllable_positions 0 (str_split lyrics)))))
     \<and> (''--'' \<notin> set (str_split lyrics) \<longrightarrow>
          create_lyric_slice lyrics a b = str_join '' '' (drop (nat a) (str_split lyrics)))"
proof (intro conjI impI)
  assume b: "syllable_count (str_split lyrics) < b"
  then show "create_lyric_slice lyrics a b =
       str_join '' '' (map fst (filter (\<lambda>(t, p). a \<le> p)
          (zip (str_split lyrics) (syllable_positions 0 (str_split lyrics)))))"
    by (simp add: create_lyric_slice_def lyric_slice_loop_underflow)
  assume p: "''--'' \<notin> set (str_split lyrics)"
  then have "filter (\<lambda>t. t \<noteq> ''--'') (str_split lyrics) = str_split lyrics"
    by (auto simp: filter_id_conv)
  then have "syllable_count (str_split lyrics) = int (length (str_split lyrics))"
    by (simp add: syllable_count_def)
  with b have "length (str_split lyrics) - nat a \<le> nat b - nat a" by linarith
  then have "take (nat b - nat a) (drop (nat a) (str_split lyrics)) = drop (nat a) (str_split lyrics)"
    by simp
  with p show "create_lyric_slice lyrics a b = str_join '' '' (drop (nat a) (str_split lyrics))"
    by (simp add: create_lyric_slice_def lyric_slice_loop_plain)
qed

text \<open>Five syllables requested of a line of two: the slice from 1 is \<^verbatim>\<open>"two"\<close>.\<close>

theorem lyric_slice_underflow_witness:
  "syllable_count (str_split ''one two'') < 5 \<and> ''--'' \<notin> set (str_split ''one two'')
   \<and> create_lyric_slice ''one two'' 1 5 = ''two''"
  using lyric_slice_underflow [of "''one two''" 5 1]
  by (simp add: str_split_def isspace_def syllable_count_def)

text \<open>
  Claim C8 as stated fails in its second half: a call whose interval exceeds the line and
  a call whose interval fits return the same value, so the result reports no underflow.
\<close>

theorem lyric_slice_no_diagnostic:
  "syllable_count (str_split ''one two'') < 5
   \<and> \<not> syllable_count (str_split ''one two'') < 2
   \<and> create_lyric_slice ''one two'' 0 5 = create_lyric_slice ''one two'' 0 2"
  by (simp add: create_lyric_slice_def str_split_def isspace_def syllable_count_def)

section \<open>Counting singable notes\<close>

text \<open>A token ends with one character only, so the three suffix tests exclude each other.\<close>

lemma endswith_unique: "endswith t a \<Longrightarrow> endswith t b \<Longrightarrow> a = b"
  by (simp add: endswith_def)

text \<open>The loop, unfolded.\<close>

lemma count_loop_Nil: "count_loop s [] = s"
  by (simp add: count_loop_def)

lemma count_loop_Cons: "count_loop s (t # ts) = count_loop (count_step s t) ts"
  by (simp add: count_loop_def)

lemma count_loop_append: "count_loop s (xs @ ys) = count_loop (count_loop s xs) ys"
  by (simp add: count_loop_def)

text \<open>One pass of the loop body, by the last character of the token.\<close>

lemma count_step_plain:
  assumes "\<not> endswith t (CHR ''~'')" "\<not> endswith t (CHR ''('')" "\<not> endswith t (CHR '')'')"
  shows "count_step \<lparr>singable_notes = n, open_parantheses = d, next_is_tie = False\<rparr> t =
           \<lparr>singable_notes = (if d = 0 \<and> match_pitch t then n + 1 else n),
            open_parantheses = d, next_is_tie = False\<rparr>"
  using assms by (simp add: count_step_def close_parantheses_def Let_def)

lemma count_step_open:
  assumes "endswith t (CHR ''('')"
  shows "count_step \<lparr>singable_notes = n, open_parantheses = d, next_is_tie = False\<rparr> t =
           \<lparr>singable_notes = (if d = 0 \<and> match_pitch t then n + 1 else n),
            open_parantheses = d + 1, next_is_tie = False\<rparr>"
proof -
  have "\<not> endswith t (CHR '')'')" "\<not> endswith t (CHR ''~'')"
    using assms endswith_unique by fastforce+
  with assms show ?thesis by (simp add: count_step_def close_parantheses_def Let_def)
qed

lemma count_step_close:
  assumes "endswith t (CHR '')'')"
  shows "count_step \<lparr>singable_notes = n, open_parantheses = d, next_is_tie = False\<rparr> t =
           \<lparr>singable_notes = (if d = 1 then n + 1 else n) + (if d = 1 \<and> match_pitch t then 1 else 0),
            open_parantheses = d - 1, next_is_tie = False\<rparr>"
proof -
  have "\<not> endswith t (CHR ''('')" "\<not> endswith t (CHR ''~'')"
    using assms endswith_unique by fastforce+
  with assms show ?thesis by (simp add: count_step_def close_parantheses_def Let_def)
qed

lemma count_step_tie:
  assumes "endswith t (CHR ''~'')"
  shows "count_step \<lparr>singable_notes = n, open_parantheses = d, next_is_tie = b\<rparr> t =
           \<lparr>singable_notes = (if \<not> b \<and> d = 0 \<and> match_pitch t then n + 1 else n),
            open_parantheses = d, next_is_tie = True\<rparr>"
proof -
  have "\<not> endswith t (CHR ''('')" "\<not> endswith t (CHR '')'')"
    using assms endswith_unique by fastforce+
  with assms show ?thesis by (simp add: count_step_def close_parantheses_def Let_def)
qed

lemma count_step_pending:
  "count_step \<lparr>singable_notes = n, open_parantheses = d, next_is_tie = True\<rparr> t =
     \<lparr>singable_notes = (if endswith t (CHR '')'') \<and> d = 1 then n + 1 else n),
      open_parantheses = (if endswith t (CHR '')'') then d - 1 else d),
      next_is_tie = endswith t (CHR ''~'')\<rparr>"
  by (simp add: count_step_def close_parantheses_def Let_def)

text \<open>
  Runs of tokens: plain tokens outside and inside parentheses, and tokens that all end with
  a tie while a tie is pending.
\<close>

lemma count_loop_plain:
  "\<forall>t\<in>set ts. \<not> endswith t (CHR ''~'') \<and> \<not> endswith t (CHR ''('') \<and> \<not> endswith t (CHR '')'') \<Longrightarrow>
   count_loop \<lparr>singable_notes = n, open_parantheses = 0, next_is_tie = False\<rparr> ts =
     \<lparr>singable_notes = n + int (length (filter match_pitch ts)),
      open_parantheses = 0, next_is_tie = False\<rparr>"
  by (induction ts arbitrary: n) (simp_all add: count_loop_Nil count_loop_Cons count_step_plain)

lemma count_loop_inside:
  "\<forall>t\<in>set ts. \<not> endswith t (CHR ''~'') \<and> \<not> endswith t (CHR ''('') \<and> \<not> endswith t (CHR '')'') \<Longrightarrow>
   d \<noteq> 0 \<Longrightarrow>
   count_loop \<lparr>singable_notes = n, open_parantheses = d, next_is_tie = False\<rparr> ts =
     \<lparr>singable_notes = n, open_parantheses = d, next_is_tie = False\<rparr>"
  by (induction ts) (simp_all add: count_loop_Nil count_loop_Cons count_step_plain)

lemma count_loop_tied:
  "\<forall>t\<in>set ts. endswith t (CHR ''~'') \<Longrightarrow>
   count_loop \<lparr>singable_notes = n, open_parantheses = d, next_is_tie = True\<rparr> ts =
     \<lparr>singable_notes = n, open_parantheses = d, next_is_tie = True\<rparr>"
  by (induction ts) (simp_all add: count_loop_Nil count_loop_Cons count_step_tie)

text \<open>
  For notes whose tokens carry no tie suffix and no parenthesis, the loop started at depth
  0 counts the tokens that begin with a pitch letter a to g, and dropping every other
  token beforehand changes nothing.
\<close>

lemma singable_count_plain:
  assumes "\<forall>t\<in>set (str_split lilypond_notes).
             \<not> endswith t (CHR ''~'') \<and> \<not> endswith t (CHR ''('') \<and> \<not> endswith t (CHR '')'')"
  shows "count_singable_notes lilypond_notes 0 =
           int (length (filter match_pitch (str_split lilypond_notes)))"
    and "str_split pitches_only = filter match_pitch (str_split lilypond_notes) \<Longrightarrow>
           count_singable_notes pitches_only 0 = count_singable_notes lilypond_notes 0"
proof -
  show all: "count_singable_notes lilypond_notes 0 =
           int (length (filter match_pitch (str_split lilypond_notes)))"
    using count_loop_plain [OF assms, of 0] by (simp add: count_singable_notes_def)
  assume p: "str_split pitches_only = filter match_pitch (str_split lilypond_notes)"
  have "\<forall>t\<in>set (filter match_pitch (str_split lilypond_notes)).
          \<not> endswith t (CHR ''~'') \<and> \<not> endswith t (CHR ''('') \<and> \<not> endswith t (CHR '')'')"
    using assms by simp
  from count_loop_plain [OF this, of 0] p all
  show "count_singable_notes pitches_only 0 = count_singable_notes lilypond_notes 0"
    by (simp add: count_singable_notes_def)
qed

text \<open>
  Two pitches, a rest and the comment line of a time change count 2, as the two pitches
  alone do.
\<close>

lemma singable_count_time_comment:
  "count_singable_notes (''c4 r4 %%% '' @ CHR 0x5C # ''time 3/4 %%% e4'') 0 = 2
   \<and> count_singable_notes ''c4 e4'' 0 = 2"
  by (simp add: count_singable_notes_def count_loop_def count_step_def close_parantheses_def
      str_split_def isspace_def endswith_def match_pitch_def)

text \<open>
  Claim C6, at the failing input. The notes \<^verbatim>\<open>c4 %%% \key d \minor %%% e4\<close> hold two
  pitches and the comment line of a key change; no token has a tie suffix or a
  parenthesis. \<^verbatim>\<open>count_singable_notes\<close> splits the comment line into words and counts its
  word \<^verbatim>\<open>d\<close> as a pitch: it returns 3, where the two pitches alone give 2.
\<close>

theorem singable_count_key_comment:
  "count_singable_notes
     (''c4 %%% '' @ CHR 0x5C # ''key d '' @ CHR 0x5C # ''minor %%% e4'') 0 = 3
   \<and> count_singable_notes ''c4 e4'' 0 = 2"
  by (simp add: count_singable_notes_def count_loop_def count_step_def close_parantheses_def
      str_split_def isspace_def endswith_def match_pitch_def)

text \<open>
  Claim C2, as amended. \<^verbatim>\<open>count_singable_notes\<close> returns the count only; the depth is a
  local of the loop. A parenthesised group is not counted as one event: the closing marker
  that brings the depth back to 0 adds one to the count, on top of the one counted for the
  pitch that opens the group at depth 0, and the pitches inside the group add nothing. For
  plain tokens \<open>before\<close>, a token \<open>opn\<close> ending with an opening parenthesis, plain tokens
  \<open>inner\<close> and a closing marker \<open>cls\<close> that is not itself a pitch token, the count is
  the pitches of \<open>before\<close>, plus one if \<open>opn\<close> is a pitch, plus one for the closing;
  the loop ends at depth 0.
\<close>

theorem portamento_group_count:
  assumes "str_split lilypond_notes = before @ opn # inner @ [cls]"
    and "\<forall>t\<in>set (before @ inner).
           \<not> endswith t (CHR ''~'') \<and> \<not> endswith t (CHR ''('') \<and> \<not> endswith t (CHR '')'')"
    and "endswith opn (CHR ''('')"
    and "endswith cls (CHR '')'')"
    and "\<not> match_pitch cls"
  shows "count_singable_notes lilypond_notes 0 =
           int (length (filter match_pitch before)) + (if match_pitch opn then 1 else 0) + 1
         \<and> open_parantheses
             (count_loop \<lparr>singable_notes = 0, open_parantheses = 0, next_is_tie = False\<rparr>
                (str_split lilypond_notes)) = 0"
proof -
  have b: "\<forall>t\<in>set before.
             \<not> endswith t (CHR ''~'') \<and> \<not> endswith t (CHR ''('') \<and> \<not> endswith t (CHR '')'')"
    and i: "\<forall>t\<in>set inner.
             \<not> endswith t (CHR ''~'') \<and> \<not> endswith t (CHR ''('') \<and> \<not> endswith t (CHR '')'')"
    using assms(2) by auto
  have "count_loop \<lparr>singable_notes = 0, open_parantheses = 0, next_is_tie = False\<rparr>
          (before @ opn # inner @ [cls]) =
        \<lparr>singable_notes =
           int (length (filter match_pitch before)) + (if match_pitch opn then 1 else 0) + 1,
         open_parantheses = 0, next_is_tie = False\<rparr>"
    using assms(5)
    by (simp add: count_loop_append count_loop_Cons count_loop_Nil count_loop_plain [OF b]
        count_step_open [OF assms(3)] count_loop_inside [OF i] count_step_close [OF assms(4)])
  then show ?thesis by (simp add: count_singable_notes_def assms(1))
qed

text \<open>The group \<^verbatim>\<open>c4 ( d8 e8 )\<close> counts 2.\<close>

theorem portamento_group_count_witness:
  "str_split ''c4 ( d8 e8 )'' = [''c4''] @ ''('' # [''d8'', ''e8''] @ ['')'']
   \<and> endswith ''('' (CHR ''('') \<and> endswith '')'' (CHR '')'') \<and> \<not> match_pitch '')''
   \<and> count_singable_notes ''c4 ( d8 e8 )'' 0 = 2"
  using portamento_group_count [of "''c4 ( d8 e8 )''" "[''c4'']" "''(''" "[''d8'', ''e8'']" "'')''"]
  by (simp add: str_split_def isspace_def endswith_def match_pitch_def)

text \<open>
  Claim C2 as stated fails: on \<^verbatim>\<open>c4( d8 e8)\<close> the function returns 3, not 1 (the opening
  pitch, the closing, and the closing token again as a pitch at depth 0).
\<close>

theorem portamento_group_counterexample:
  "count_singable_notes ''c4( d8 e8)'' 0 = 3 \<and> count_singable_notes ''c4( d8 e8)'' 0 \<noteq> 1"
  by (simp add: count_singable_notes_def count_loop_def count_step_def close_parantheses_def
      str_split_def isspace_def endswith_def match_pitch_def)

text \<open>
  Claim C5, as amended. A maximal run of tied notes that starts at depth 0 with a pitch
  and no pending tie counts exactly one event, and leaves no tie pending. While a tie is
  pending the flag becomes whether the token itself ends with a tie, and the tie branch
  adds nothing to the count: the count changes on such a token only when the token ends
  with a closing parenthesis that brings the depth from 1 to 0, because the closing test
  runs before the tie test.
\<close>

theorem tie_run_count:
  "(endswith first (CHR ''~'') \<and> match_pitch first \<and> (\<forall>t\<in>set middle. endswith t (CHR ''~''))
      \<and> \<not> endswith final (CHR ''~'') \<longrightarrow>
      count_loop \<lparr>singable_notes = n, open_parantheses = 0, next_is_tie = False\<rparr>
          (first # middle @ [final]) =
        \<lparr>singable_notes = n + 1,
         open_parantheses = (if endswith final (CHR '')'') then - 1 else 0),
         next_is_tie = False\<rparr>
      \<and> (str_split lilypond_notes = first # middle @ [final] \<longrightarrow>
           count_singable_notes lilypond_notes 0 = 1))
   \<and> (next_is_tie s \<longrightarrow>
        next_is_tie (count_step s t) = endswith t (CHR ''~'')
        \<and> singable_notes (count_step s t) =
            (if endswith t (CHR '')'') \<and> open_parantheses s = 1
             then singable_notes s + 1 else singable_notes s))"
proof (intro conjI impI)
  assume h: "endswith first (CHR ''~'') \<and> match_pitch first
      \<and> (\<forall>t\<in>set middle. endswith t (CHR ''~'')) \<and> \<not> endswith final (CHR ''~'')"
  then have f: "endswith first (CHR ''~'')" and m: "\<forall>t\<in>set middle. endswith t (CHR ''~'')"
    by simp_all
  show run: "count_loop \<lparr>singable_notes = n, open_parantheses = 0, next_is_tie = False\<rparr>
          (first # middle @ [final]) =
        \<lparr>singable_notes = n + 1,
         open_parantheses = (if endswith final (CHR '')'') then - 1 else 0),
         next_is_tie = False\<rparr>" for n
    using h
    by (simp add: count_loop_append count_loop_Cons count_loop_Nil count_step_tie [OF f]
        count_loop_tied [OF m] count_step_pending)
  assume "str_split lilypond_notes = first # middle @ [final]"
  then show "count_singable_notes lilypond_notes 0 = 1"
    using run [of 0] by (simp add: count_singable_notes_def)
next
  assume "next_is_tie s"
  then show "next_is_tie (count_step s t) = endswith t (CHR ''~'')"
    by (simp add: count_step_def close_parantheses_def Let_def)
next
  assume "next_is_tie s"
  then show "singable_notes (count_step s t) =
            (if endswith t (CHR '')'') \<and> open_parantheses s = 1
             then singable_notes s + 1 else singable_notes s)"
    by (simp add: count_step_def close_parantheses_def Let_def)
qed

text \<open>\<^verbatim>\<open>c4~ c8\<close> and the chain \<^verbatim>\<open>c4~ c2~ c8\<close> both count 1.\<close>

theorem tie_run_count_witness:
  "endswith ''c4~'' (CHR ''~'') \<and> match_pitch ''c4~'' \<and> endswith ''c2~'' (CHR ''~'')
   \<and> \<not> endswith ''c8'' (CHR ''~'')
   \<and> str_split ''c4~ c2~ c8'' = ''c4~'' # [''c2~''] @ [''c8'']
   \<and> count_singable_notes ''c4~ c2~ c8'' 0 = 1
   \<and> count_singable_notes ''c4~ c8'' 0 = 1
   \<and> next_is_tie \<lparr>singable_notes = 1, open_parantheses = 0, next_is_tie = True\<rparr>
   \<and> singable_notes
        (count_step \<lparr>singable_notes = 1, open_parantheses = 0, next_is_tie = True\<rparr> ''c8'') = 1"
  using tie_run_count [of "''c4~''" "[''c2~'']" "''c8''" 0 "''c4~ c2~ c8''"
      "\<lparr>singable_notes = 1, open_parantheses = 0, next_is_tie = True\<rparr>" "''c8''"]
    tie_run_count [of "''c4~''" "[]" "''c8''" 0 "''c4~ c8''"
      "\<lparr>singable_notes = 1, open_parantheses = 0, next_is_tie = True\<rparr>" "''c8''"]
  by (simp add: str_split_def isspace_def endswith_def match_pitch_def)

text \<open>
  Claim C5 as stated fails in one part: in \<^verbatim>\<open>c4( d4~ d4)\<close> the last token is consumed
  under a pending tie and the count goes from 1 to 2.
\<close>

theorem tie_pending_counterexample:
  "next_is_tie (count_loop \<lparr>singable_notes = 0, open_parantheses = 0, next_is_tie = False\<rparr>
                  (str_split ''c4( d4~''))
   \<and> count_singable_notes ''c4( d4~'' 0 = 1
   \<and> count_singable_notes ''c4( d4~ d4)'' 0 = 2"
  by (simp add: count_singable_notes_def count_loop_def count_step_def close_parantheses_def
      str_split_def isspace_def endswith_def match_pitch_def)

text \<open>
  The counter on unbalanced input. A parenthesis that is opened and never closed leaves
  the depth at 1 and the function returns the count reached before it; a tie chain that
  runs to the end of the input leaves the tie pending and the function returns the count
  of its first note. What the abjad parser does with such notes, before any shard reaches
  the counter, is outside this model.
\<close>

lemma unbalanced_notation_returns:
  "(str_split lilypond_notes = opn # rest \<and> endswith opn (CHR ''('')
      \<and> (\<forall>t\<in>set rest.
            \<not> endswith t (CHR ''~'') \<and> \<not> endswith t (CHR ''('') \<and> \<not> endswith t (CHR '')'')) \<longrightarrow>
      count_singable_notes lilypond_notes 0 = (if match_pitch opn then 1 else 0)
      \<and> open_parantheses
          (count_loop \<lparr>singable_notes = 0, open_parantheses = 0, next_is_tie = False\<rparr>
             (str_split lilypond_notes)) = 1)
   \<and> (str_split lilypond_notes = first # rest \<and> (\<forall>t\<in>set (first # rest). endswith t (CHR ''~'')) \<longrightarrow>
      count_singable_notes lilypond_notes 0 = (if match_pitch first then 1 else 0)
      \<and> next_is_tie
          (count_loop \<lparr>singable_notes = 0, open_parantheses = 0, next_is_tie = False\<rparr>
             (str_split lilypond_notes)))"
proof (intro conjI impI)
  assume h: "str_split lilypond_notes = opn # rest \<and> endswith opn (CHR ''('')
      \<and> (\<forall>t\<in>set rest.
            \<not> endswith t (CHR ''~'') \<and> \<not> endswith t (CHR ''('') \<and> \<not> endswith t (CHR '')''))"
  then have o: "endswith opn (CHR ''('')"
    and r: "\<forall>t\<in>set rest.
            \<not> endswith t (CHR ''~'') \<and> \<not> endswith t (CHR ''('') \<and> \<not> endswith t (CHR '')'')"
    by simp_all
  have "count_loop \<lparr>singable_notes = 0, open_parantheses = 0, next_is_tie = False\<rparr> (opn # rest) =
        \<lparr>singable_notes = (if match_pitch opn then 1 else 0), open_parantheses = 1,
         next_is_tie = False\<rparr>"
    by (simp add: count_loop_Cons count_step_open [OF o] count_loop_inside [OF r])
  with h show "count_singable_notes lilypond_notes 0 = (if match_pitch opn then 1 else 0)"
    and "open_parantheses
          (count_loop \<lparr>singable_notes = 0, open_parantheses = 0, next_is_tie = False\<rparr>
             (str_split lilypond_notes)) = 1"
    by (simp_all add: count_singable_notes_def)
next
  assume h: "str_split lilypond_notes = first # rest
      \<and> (\<forall>t\<in>set (first # rest). endswith t (CHR ''~''))"
  then have f: "endswith first (CHR ''~'')" and r: "\<forall>t\<in>set rest. endswith t (CHR ''~'')"
    by simp_all
  have "count_loop \<lparr>singable_notes = 0, open_parantheses = 0, next_is_tie = False\<rparr> (first # rest) =
        \<lparr>singable_notes = (if match_pitch first then 1 else 0), open_parantheses = 0,
         next_is_tie = True\<rparr>"
    by (simp add: count_loop_Cons count_step_tie [OF f] count_loop_tied [OF r])
  with h show "count_singable_notes lilypond_notes 0 = (if match_pitch first then 1 else 0)"
    and "next_is_tie
          (count_loop \<lparr>singable_notes = 0, open_parantheses = 0, next_is_tie = False\<rparr>
             (str_split lilypond_notes))"
    by (simp_all add: count_singable_notes_def)
qed

text \<open>\<^verbatim>\<open>c4( d4 e4\<close> and \<^verbatim>\<open>c4~ c4~\<close> both return 1.\<close>

lemma unbalanced_notation_returns_instances:
  "str_split ''c4( d4 e4'' = ''c4('' # [''d4'', ''e4''] \<and> endswith ''c4('' (CHR ''('')
   \<and> count_singable_notes ''c4( d4 e4'' 0 = 1
   \<and> str_split ''c4~ c4~'' = ''c4~'' # [''c4~''] \<and> endswith ''c4~'' (CHR ''~'')
   \<and> count_singable_notes ''c4~ c4~'' 0 = 1"
  using unbalanced_notation_returns [of "''c4( d4 e4''" "''c4(''" "[''d4'', ''e4'']"]
    unbalanced_notation_returns [of "''c4~ c4~''" _ "[''c4~'']" "''c4~''"]
  by (simp add: str_split_def isspace_def endswith_def match_pitch_def)

text \<open>On the single token \<^verbatim>\<open>c4(\<close> the counter returns 1, with the depth left at 1.\<close>

lemma unclosed_portamento_count:
  "count_singable_notes ''c4('' 0 = 1
   \<and> count_loop \<lparr>singable_notes = 0, open_parantheses = 0, next_is_tie = False\<rparr>
        (str_split ''c4('') =
      \<lparr>singable_notes = 1, open_parantheses = 1, next_is_tie = False\<rparr>"
  by (simp add: count_singable_notes_def count_loop_def count_step_def close_parantheses_def
      str_split_def isspace_def endswith_def match_pitch_def)

section \<open>Normal lyrics\<close>





text \<open>
  The loop fails only while \<open>words\<close> is empty: on the first token that is not a marker,
  when a join marker came before it.
\<close>

lemma normal_lyrics_loop_nonempty:
  "words \<noteq> [] \<Longrightarrow> \<exists>out. normal_lyrics_loop words join_next ts = Inr out"
  by (induction ts arbitrary: words join_next) simp_all

lemma normal_lyrics_loop_error:
  "normal_lyrics_loop [] join_next ts = Inl IndexError \<longleftrightarrow>
     (join_next \<or> ''--'' \<in> set (takeWhile (\<lambda>t. t = ''__'' \<or> t = ''--'') ts))
     \<and> dropWhile (\<lambda>t. t = ''__'' \<or> t = ''--'') ts \<noteq> []"
proof (induction ts arbitrary: join_next)
  case Nil
  then show ?case by simp
next
  case (Cons t ts)
  show ?case
  proof (cases "t = ''__'' \<or> t = ''--''")
    case True
    then show ?thesis using Cons.IH by auto
  next
    case False
    obtain out where "normal_lyrics_loop [t] False ts = Inr out"
      using normal_lyrics_loop_nonempty [of "[t]" False ts] by auto
    with False show ?thesis by simp
  qed
qed



text \<open>
  Claim C10, as amended. \<^verbatim>\<open>create_normal_lyrics\<close> raises \<^verbatim>\<open>IndexError\<close> exactly when a
  join marker stands among the markers that lead the line and some token that is neither a
  join marker nor a melisma marker follows them. When only markers follow, it returns.
\<close>

theorem normal_lyrics_index_error:
  "create_normal_lyrics lyrics = Inl IndexError \<longleftrightarrow>
     ''--'' \<in> set (takeWhile (\<lambda>t. t = ''__'' \<or> t = ''--'') (str_split lyrics))
     \<and> dropWhile (\<lambda>t. t = ''__'' \<or> t = ''--'') (str_split lyrics) \<noteq> []"
proof -
  have "create_normal_lyrics lyrics = Inl IndexError \<longleftrightarrow>
        normal_lyrics_loop [] False (str_split lyrics) = Inl IndexError"
    by (cases "normal_lyrics_loop [] False (str_split lyrics)")
      (simp_all add: create_normal_lyrics_def)
  then show ?thesis
    using normal_lyrics_loop_error [of False "str_split lyrics"] by simp
qed

text \<open>\<^verbatim>\<open>"__ -- __ ry had"\<close> raises \<^verbatim>\<open>IndexError\<close>.\<close>

theorem normal_lyrics_index_error_witness:
  "''--'' \<in> set (takeWhile (\<lambda>t. t = ''__'' \<or> t = ''--'') (str_split ''__ -- __ ry had''))
   \<and> dropWhile (\<lambda>t. t = ''__'' \<or> t = ''--'') (str_split ''__ -- __ ry had'') \<noteq> []
   \<and> create_normal_lyrics ''__ -- __ ry had'' = Inl IndexError"
  using normal_lyrics_index_error [of "''__ -- __ ry had''"]
  by (simp add: str_split_def isspace_def)

text \<open>
  Claim C10 as stated fails when the token after the leading join marker is another
  marker: \<^verbatim>\<open>"-- --"\<close> and \<^verbatim>\<open>"-- __"\<close> return the empty string.
\<close>

theorem normal_lyrics_markers_only_counterexample:
  "create_normal_lyrics ''-- --'' = Inr [] \<and> create_normal_lyrics ''-- __'' = Inr []
   \<and> create_normal_lyrics ''-- --'' \<noteq> Inl IndexError"
  by (simp add: create_normal_lyrics_def str_split_def isspace_def)

section \<open>Note shards\<close>

text \<open>The \<^verbatim>\<open>while\<close> loop: its exit and one pass.\<close>

lemma compensate_done:
  "compensate_comments (shard, normalized_notes, found, found) = Some (shard, normalized_notes)"
  by (subst compensate_comments.simps) simp

lemma compensate_step:
  "found \<noteq> compensated \<Longrightarrow>
   compensate_comments (shard, normalized_notes, found, compensated) =
   compensate_comments
     (shard @ take found normalized_notes, drop found normalized_notes,
      num_comments (shard @ take found normalized_notes),
      compensated + length (take found normalized_notes))"
  by (subst compensate_comments.simps) simp

text \<open>
  Once \<open>normalized_notes\<close> is empty and the two counters differ, a pass changes nothing:
  the loop does not return.
\<close>

lemma compensate_returns:
  assumes "compensate_comments st = Some y"
  shows "\<not> (\<exists>sh c. st = (sh, [], num_comments sh, c) \<and> num_comments sh \<noteq> c)"
  using assms
proof (rule compensate_comments.raw_induct [rotated])
  fix rec :: "string list \<times> string list \<times> nat \<times> nat \<Rightarrow> (string list \<times> string list) option"
  fix st y
  assume ih: "\<And>x y. rec x = Some y \<Longrightarrow>
      \<not> (\<exists>sh c. x = (sh, [], num_comments sh, c) \<and> num_comments sh \<noteq> c)"
  assume body: "(case st of
      (shard, normalized_notes, num_comments_found, num_comments_compensated) \<Rightarrow>
        if num_comments_found \<noteq> num_comments_compensated then
          rec (shard @ take num_comments_found normalized_notes,
               drop num_comments_found normalized_notes,
               num_comments (shard @ take num_comments_found normalized_notes),
               num_comments_compensated + length (take num_comments_found normalized_notes))
        else Some (shard, normalized_notes)) = Some y"
  show "\<not> (\<exists>sh c. st = (sh, [], num_comments sh, c) \<and> num_comments sh \<noteq> c)"
  proof
    assume "\<exists>sh c. st = (sh, [], num_comments sh, c) \<and> num_comments sh \<noteq> c"
    then obtain sh c where st: "st = (sh, [], num_comments sh, c)" and ne: "num_comments sh \<noteq> c"
      by blast
    with body have "rec (sh, [], num_comments sh, c) = Some y" by simp
    from ih [OF this] ne show False by simp
  qed
qed

lemma compensate_exhausted:
  assumes "num_comments shard \<noteq> compensated"
  shows "compensate_comments (shard, [], num_comments shard, compensated) = None"
proof (cases "compensate_comments (shard, [], num_comments shard, compensated)")
  case None
  then show ?thesis .
next
  case (Some y)
  from compensate_returns [OF this] assms show ?thesis by simp
qed

text \<open>Without comment lines the \<^verbatim>\<open>while\<close> loop is not entered.\<close>

lemma num_comments_none:
  "\<forall>x\<in>set xs. \<not> startswith x ''%%%'' \<Longrightarrow> num_comments xs = 0"
  by (induction xs) (simp_all add: num_comments_def)

text \<open>The shard strings are the shards' lines, joined.\<close>

lemma note_shards_loop_lines:
  "note_shards_loop (map (str_join '' '') shards) normalized_notes ls =
   map_option (map (str_join '' '')) (shard_lines_loop shards normalized_notes ls)"
proof (induction ls arbitrary: shards normalized_notes)
  case Nil
  then show ?case by simp
next
  case (Cons l ls)
  show ?case
  proof (cases "compensate_comments
             (take l normalized_notes, drop l normalized_notes,
              num_comments (take l normalized_notes), 0)")
    case None
    then show ?thesis by simp
  next
    case (Some r)
    obtain shard rest where r: "r = (shard, rest)" by (cases r)
    have "note_shards_loop (map (str_join '' '') (shards @ [shard])) rest ls =
          map_option (map (str_join '' '')) (shard_lines_loop (shards @ [shard]) rest ls)"
      by (rule Cons.IH)
    with Some r show ?thesis by simp
  qed
qed

lemma shard_lines_loop_plain:
  "\<forall>x\<in>set normalized_notes. \<not> startswith x ''%%%'' \<Longrightarrow>
   \<exists>out. shard_lines_loop shards normalized_notes ls = Some (shards @ out)
       \<and> list_all2 (\<lambda>shard l. length shard \<le> l) out ls
       \<and> concat out = take (sum_list ls) normalized_notes"
proof (induction ls arbitrary: shards normalized_notes)
  case Nil
  then show ?case by simp
next
  case (Cons l ls)
  have t: "\<forall>x\<in>set (take l normalized_notes). \<not> startswith x ''%%%''"
    using Cons.prems by (meson in_set_takeD)
  have d: "\<forall>x\<in>set (drop l normalized_notes). \<not> startswith x ''%%%''"
    using Cons.prems by (meson in_set_dropD)
  from Cons.IH [OF d, of "shards @ [take l normalized_notes]"]
  obtain out where out: "shard_lines_loop (shards @ [take l normalized_notes])
        (drop l normalized_notes) ls = Some ((shards @ [take l normalized_notes]) @ out)"
    and len: "list_all2 (\<lambda>shard l. length shard \<le> l) out ls"
    and cat: "concat out = take (sum_list ls) (drop l normalized_notes)"
    by blast
  have "shard_lines_loop shards normalized_notes (l # ls) =
        Some (shards @ (take l normalized_notes # out))"
    using out by (simp add: num_comments_none [OF t] compensate_done)
  moreover have "list_all2 (\<lambda>shard l. length shard \<le> l) (take l normalized_notes # out) (l # ls)"
    using len by simp
  moreover have "concat (take l normalized_notes # out) = take (sum_list (l # ls)) normalized_notes"
    using cat by (simp add: take_add)
  ultimately show ?case by blast
qed

text \<open>
  Claim C4, as amended. The shard splitter compares nothing with the length of the
  normalized sequence and raises nothing. On normalized notes without comment lines it
  returns one shard for each segment length, each shard the next lines of the sequence, at
  most as many as its length asks for; together the shards are the first
  \<open>sum_list shard_lengths\<close> lines. Lines beyond that are left out, and where too few
  lines are left the shards are shorter, down to the empty string.
\<close>

theorem note_shards_no_check:
  assumes "\<forall>x\<in>set normalized_notes. \<not> startswith x ''%%%''"
  shows "\<exists>shards. create_normal_note_shards normalized_notes shard_lengths =
             Some (map (str_join '' '') shards)
           \<and> shard_lines_loop [] normalized_notes shard_lengths = Some shards
           \<and> list_all2 (\<lambda>shard l. length shard \<le> l) shards shard_lengths
           \<and> concat shards = take (sum_list shard_lengths) normalized_notes"
proof -
  from shard_lines_loop_plain [OF assms, of "[]" shard_lengths]
  obtain out where out: "shard_lines_loop [] normalized_notes shard_lengths = Some out"
    and len: "list_all2 (\<lambda>shard l. length shard \<le> l) out shard_lengths"
    and cat: "concat out = take (sum_list shard_lengths) normalized_notes"
    by auto
  have "create_normal_note_shards normalized_notes shard_lengths = Some (map (str_join '' '') out)"
    using note_shards_loop_lines [of "[]" normalized_notes shard_lengths] out
    by (simp add: create_normal_note_shards_def)
  with out len cat show ?thesis by blast
qed

text \<open>Three lines and the lengths 1 and 1.\<close>

theorem note_shards_no_check_witness:
  "\<not> startswith ''c4'' ''%%%'' \<and> \<not> startswith ''d4'' ''%%%'' \<and> \<not> startswith ''e4'' ''%%%''
   \<and> (\<exists>shards. create_normal_note_shards [''c4'', ''d4'', ''e4''] [1, 1] =
             Some (map (str_join '' '') shards)
           \<and> shard_lines_loop [] [''c4'', ''d4'', ''e4''] [1, 1] = Some shards
           \<and> concat shards = [''c4'', ''d4''])"
proof -
  have plain: "\<forall>x\<in>set [''c4'', ''d4'', ''e4'']. \<not> startswith x ''%%%''"
    by (simp add: startswith_def)
  from note_shards_no_check [OF plain, of "[1, 1]"]
  obtain shards where
    a: "create_normal_note_shards [''c4'', ''d4'', ''e4''] [1, 1] =
          Some (map (str_join '' '') shards)"
    and b: "shard_lines_loop [] [''c4'', ''d4'', ''e4''] [1, 1] = Some shards"
    and c: "concat shards = take (sum_list [1, 1]) [''c4'', ''d4'', ''e4'']"
    by blast
  from c have d: "concat shards = [''c4'', ''d4'']" by simp
  have e: "\<not> startswith ''c4'' ''%%%'' \<and> \<not> startswith ''d4'' ''%%%''
      \<and> \<not> startswith ''e4'' ''%%%''"
    by (simp add: startswith_def)
  from a b d e show ?thesis by blast
qed

text \<open>
  Claim C4 as stated fails: with lengths that sum to less than three lines the last line
  is left out, and with lengths that sum to more the last shard is short or empty. The
  function returns in each case.
\<close>

theorem note_shards_mismatch_counterexample:
  "create_normal_note_shards [''c4'', ''d4'', ''e4''] [1, 1] = Some [''c4'', ''d4'']
   \<and> create_normal_note_shards [''c4'', ''d4'', ''e4''] [2, 2] = Some [''c4 d4'', ''e4'']
   \<and> create_normal_note_shards [''c4''] [1, 1] = Some [''c4'', '''']"
  by (simp add: create_normal_note_shards_def compensate_done num_comments_def startswith_def)

text \<open>
  Claim C3, at the failing input. The lines are those of
  \<^verbatim>\<open>c4 \time 3/4 d4 e4 \time 4/4 f4 %% g4\<close>, with the segment lengths 4 and 1. The first
  shard takes four lines, one of them a comment, and one more line to make up for it; this
  line is the second comment. The next pass takes two lines, not one, so \<^verbatim>\<open>g4\<close> goes
  into the first shard, three lines are counted as made up for against two comments, and
  the loop runs on the empty list for ever: no shards are returned.
\<close>

theorem note_shards_never_returns:
  "create_normal_note_shards
     [''c4'', ''%%% '' @ CHR 0x5C # ''time 3/4 %%%'', ''d4'', ''e4'',
      ''%%% '' @ CHR 0x5C # ''time 4/4 %%%'', ''f4'', ''g4'']
     [4, 1] = None"
proof -
  let ?a = "''%%% '' @ CHR 0x5C # ''time 3/4 %%%''"
  let ?b = "''%%% '' @ CHR 0x5C # ''time 4/4 %%%''"
  let ?ns = "[''c4'', ?a, ''d4'', ''e4'', ?b, ''f4'', ''g4'']"
  have c: "num_comments [''c4'', ?a, ''d4'', ''e4''] = 1"
    "num_comments [''c4'', ?a, ''d4'', ''e4'', ?b] = 2"
    "num_comments ?ns = 2"
    by (simp_all add: num_comments_def startswith_def)
  have "compensate_comments (take 4 ?ns, drop 4 ?ns, num_comments (take 4 ?ns), 0) =
        compensate_comments ([''c4'', ?a, ''d4'', ''e4''], [?b, ''f4'', ''g4''], 1, 0)"
    using c(1) by simp
  also have "\<dots> =
        compensate_comments ([''c4'', ?a, ''d4'', ''e4'', ?b], [''f4'', ''g4''], 2, 1)"
    using compensate_step [of 1 0 "[''c4'', ?a, ''d4'', ''e4'']" "[?b, ''f4'', ''g4'']"] c(2)
    by (simp add: eval_nat_numeral)
  also have "\<dots> = compensate_comments (?ns, [], 2, 3)"
    using compensate_step [of 2 1 "[''c4'', ?a, ''d4'', ''e4'', ?b]" "[''f4'', ''g4'']"] c(3)
    by (simp add: eval_nat_numeral)
  also have "\<dots> = None"
    using compensate_exhausted [of ?ns 3] c(3) by (simp add: eval_nat_numeral)
  finally have "compensate_comments (take 4 ?ns, drop 4 ?ns, num_comments (take 4 ?ns), 0) = None" .
  then show ?thesis
    by (simp only: create_normal_note_shards_def note_shards_loop.simps option.case)
qed

end
